theory Spec2Isabelle
  imports Main "HOL-Library.Sublist"
begin

section \<open>Data model\<close>

text \<open>
  The interceptor of \<^verbatim>\<open>src/unnamed/part_000\<close> (the label-extractor version of the
  server). Go strings are byte sequences, modelled as \<^typ>\<open>string\<close>; a Go
  \<^verbatim>\<open>map[string]string\<close> is a map \<open>string \<rightharpoonup> string\<close>: its keys are unique, so
  nothing the code computes depends on the order in which a \<^verbatim>\<open>range\<close> loop
  visits them.
\<close>

type_synonym label_map = "string \<rightharpoonup> string"

text \<open>
  The \<^verbatim>\<open>LabelExtractor\<close> interface: the two methods of an implementation, the
  second one a function of the call context.
\<close>

record 'ctx LabelExtractor =
  LabelNames :: "string list"
  Labels :: "'ctx \<Rightarrow> label_map"

text \<open>\<^verbatim>\<open>grpc.UnaryServerInfo\<close>: only \<^verbatim>\<open>FullMethod\<close> is read.\<close>

record UnaryServerInfo =
  FullMethod :: string

text \<open>
  A metric vector of the Prometheus client is a reference held by
  \<^verbatim>\<open>ServerMetrics\<close>; what is fixed at construction (name, help text, declared
  label names) is the descriptor below, and the series it holds live in the store
  (\<open>world\<close>), since every call mutates them.
\<close>

record MetricDesc =
  Name :: string
  Help :: string
  variableLabels :: "string list"

record ServerMetrics =
  labels :: "string list"
  serverHandledCounter :: MetricDesc
  serverHandledHistogram :: MetricDesc

text \<open>
  The series of a vector, one entry per label-value tuple, in creation order. A counter
  series holds its count; a histogram series holds the durations observed so far (in
  nanoseconds, the unit of \<^verbatim>\<open>time.Duration\<close>), of which the client keeps the
  number, the sum and the bucket counts.
\<close>

type_synonym 'v series = "(string list \<times> 'v) list"

record world =
  now :: int
  counterSeries :: "nat series"
  histogramSeries :: "int list series"

text \<open>
  Modelled from the spec: the metric vectors of the Prometheus client library, which is
  not under src/. Recording on a label-value tuple creates the tuple's series if it does
  not exist yet and then applies the update; there is no other mutation.
\<close>

fun with_series :: "'v \<Rightarrow> ('v \<Rightarrow> 'v) \<Rightarrow> string list \<Rightarrow> 'v series \<Rightarrow> 'v series" where
  "with_series z f lvs [] = [(lvs, f z)]"
| "with_series z f lvs ((k, v) # rest) =
     (if k = lvs then (k, f v) # rest else (k, v) # with_series z f lvs rest)"

definition CounterVec_Inc :: "string list \<Rightarrow> nat series \<Rightarrow> nat series" where
  "CounterVec_Inc lvs vec = with_series 0 Suc lvs vec"

definition HistogramVec_Observe :: "string list \<Rightarrow> int \<Rightarrow> int list series \<Rightarrow> int list series" where
  "HistogramVec_Observe lvs d vec = with_series [] (\<lambda>obs. obs @ [d]) lvs vec"

text \<open>The value of a tuple's series, zero or empty when the series does not exist.\<close>

definition counter_value :: "nat series \<Rightarrow> string list \<Rightarrow> nat" where
  "counter_value vec lvs = (case map_of vec lvs of None \<Rightarrow> 0 | Some n \<Rightarrow> n)"

definition histogram_obs :: "int list series \<Rightarrow> string list \<Rightarrow> int list" where
  "histogram_obs vec lvs = (case map_of vec lvs of None \<Rightarrow> [] | Some obs \<Rightarrow> obs)"

text \<open>What a scrape receives: one item per series, the counter's and then the histogram's.\<close>

datatype Metric =
  CounterMetric "string list" nat
| HistogramMetric "string list" "int list"

fun metric_labels :: "Metric \<Rightarrow> string list" where
  "metric_labels (CounterMetric lvs n) = lvs"
| "metric_labels (HistogramMetric lvs obs) = lvs"

fun metric_count :: "Metric \<Rightarrow> nat" where
  "metric_count (CounterMetric lvs n) = n"
| "metric_count (HistogramMetric lvs obs) = length obs"

definition Collect_metrics :: "ServerMetrics \<Rightarrow> world \<Rightarrow> Metric list" where
  "Collect_metrics m w =
     map (\<lambda>(lvs, n). CounterMetric lvs n) (counterSeries w)
     @ map (\<lambda>(lvs, obs). HistogramMetric lvs obs) (histogramSeries w)"

section \<open>Registry construction and label extractors\<close>

definition NewServerMetrics :: "'ctx LabelExtractor \<Rightarrow> ServerMetrics" where
  "NewServerMetrics labelExtractor =
     (let labels = [''grpc_service'', ''grpc_method'', ''grpc_status''] @ LabelNames labelExtractor
      in \<lparr> labels = labels,
           serverHandledCounter =
             \<lparr> Name = ''grpc_server_handled_total'',
               Help = ''Total number of RPCs completed on the server, regardless of success or failure.'',
               variableLabels = labels \<rparr>,
           serverHandledHistogram =
             \<lparr> Name = ''grpc_server_handling_seconds'',
               Help = ''Histogram of response latency (seconds) of gRPC that had been application-level handled by the server.'',
               variableLabels = labels \<rparr> \<rparr>)"

text \<open>The store right after construction: both vectors allocated, no series in them.\<close>

definition new_world :: "int \<Rightarrow> world" where
  "new_world t = \<lparr> now = t, counterSeries = [], histogramSeries = [] \<rparr>"

definition DefaultLabelExtractor :: "'ctx LabelExtractor" where
  "DefaultLabelExtractor =
     \<lparr> LabelNames = [],
       Labels = (\<lambda>ctx. fold (\<lambda>l res. res(l \<mapsto> ''default'')) [] Map.empty) \<rparr>"

definition CustomLabelExtractor :: "'ctx LabelExtractor" where
  "CustomLabelExtractor =
     \<lparr> LabelNames = [''userName''],
       Labels = (\<lambda>ctx. [''userName'' \<mapsto> ''jordi'', ''appVersion'' \<mapsto> ''v0.5'']) \<rparr>"

section \<open>Label resolution\<close>

text \<open>\<^verbatim>\<open>strings.TrimPrefix\<close> and \<^verbatim>\<open>strings.Index\<close> (\<open>-1\<close> when there is no occurrence).\<close>

definition TrimPrefix :: "string \<Rightarrow> string \<Rightarrow> string" where
  "TrimPrefix s p = (if prefix p s then drop (length p) s else s)"

fun Index :: "string \<Rightarrow> string \<Rightarrow> int" where
  "Index [] substr = (if substr = [] then 0 else - 1)"
| "Index (c # s) substr =
     (if prefix substr (c # s) then 0
      else (let i = Index s substr in if i < 0 then - 1 else i + 1))"

definition splitMethodName :: "string \<Rightarrow> string \<times> string" where
  "splitMethodName fullMethodName0 =
     (let fullMethodName = TrimPrefix fullMethodName0 ''/'';
          i = Index fullMethodName ''/''
      in if i \<ge> 0 then (take (nat i) fullMethodName, drop (nat (i + 1)) fullMethodName)
         else (''unknown'', ''unknown''))"

text \<open>
  The split as the specification words it: strip one leading slash, cut at the first
  slash that remains, and fall back to \<open>unknown\<close> when none remains.
\<close>

definition spec_split :: "string \<Rightarrow> string \<times> string" where
  "spec_split s =
     (let t = (case s of [] \<Rightarrow> [] | c # rest \<Rightarrow> if c = CHR ''/'' then rest else s)
      in if CHR ''/'' \<in> set t
         then (takeWhile (\<lambda>c. c \<noteq> CHR ''/'') t, tl (dropWhile (\<lambda>c. c \<noteq> CHR ''/'') t))
         else (''unknown'', ''unknown''))"

definition metricLabels :: "ServerMetrics \<Rightarrow> 'ctx LabelExtractor \<Rightarrow> 'ctx \<Rightarrow> UnaryServerInfo \<Rightarrow> label_map" where
  "metricLabels m labelExtractor ctx info =
     (let (service, method) = splitMethodName (FullMethod info);
          labels0 = [''grpc_service'' \<mapsto> service, ''grpc_method'' \<mapsto> method];
          labels1 = labels0 ++ Labels labelExtractor ctx
      in fold (\<lambda>labelName labels2.
                 case labels2 labelName of
                   None \<Rightarrow> labels2(labelName \<mapsto> ''default'')
                 | Some v \<Rightarrow> labels2)
              (labels m) labels1)"

section \<open>Outcome classification\<close>

text \<open>
  Modelled from the spec: the status classification of the gRPC status packages, which
  are not under src/. An error either carries a gRPC status (its code and message) or it
  does not; no error is the nil status, whose code is \<open>OK\<close>, and an error without a
  status is classified \<open>Unknown\<close>.
\<close>

datatype Code =
  OK | Canceled | Unknown | InvalidArgument | DeadlineExceeded | NotFound
| AlreadyExists | PermissionDenied | ResourceExhausted | FailedPrecondition
| Aborted | OutOfRange | Unimplemented | Internal | Unavailable | DataLoss
| Unauthenticated

datatype error = StatusError Code string | PlainError string

datatype Status = Status Code string

fun FromError :: "error option \<Rightarrow> Status option \<times> bool" where
  "FromError None = (None, True)"
| "FromError (Some (StatusError c msg)) = (Some (Status c msg), True)"
| "FromError (Some (PlainError msg)) = (Some (Status Unknown msg), False)"

fun Code_of :: "Status option \<Rightarrow> Code" where
  "Code_of None = OK"
| "Code_of (Some (Status c msg)) = c"

fun Code_String :: "Code \<Rightarrow> string" where
  "Code_String OK = ''OK''"
| "Code_String Canceled = ''Canceled''"
| "Code_String Unknown = ''Unknown''"
| "Code_String InvalidArgument = ''InvalidArgument''"
| "Code_String DeadlineExceeded = ''DeadlineExceeded''"
| "Code_String NotFound = ''NotFound''"
| "Code_String AlreadyExists = ''AlreadyExists''"
| "Code_String PermissionDenied = ''PermissionDenied''"
| "Code_String ResourceExhausted = ''ResourceExhausted''"
| "Code_String FailedPrecondition = ''FailedPrecondition''"
| "Code_String Aborted = ''Aborted''"
| "Code_String OutOfRange = ''OutOfRange''"
| "Code_String Unimplemented = ''Unimplemented''"
| "Code_String Internal = ''Internal''"
| "Code_String Unavailable = ''Unavailable''"
| "Code_String DataLoss = ''DataLoss''"
| "Code_String Unauthenticated = ''Unauthenticated''"

section \<open>Call reporter and interceptor\<close>

record serverReporter =
  metrics :: ServerMetrics
  reporter_labels :: label_map
  startTime :: int

definition newServerReporter :: "ServerMetrics \<Rightarrow> label_map \<Rightarrow> world \<Rightarrow> serverReporter" where
  "newServerReporter m lbls w = \<lparr> metrics = m, reporter_labels = lbls, startTime = now w \<rparr>"

text \<open>Reading a Go map at a key it does not hold gives the zero value, the empty string.\<close>

definition map_index :: "label_map \<Rightarrow> string \<Rightarrow> string" where
  "map_index lbls k = (case lbls k of None \<Rightarrow> [] | Some v \<Rightarrow> v)"

text \<open>The loop of \<^verbatim>\<open>Handled\<close> that builds \<^verbatim>\<open>orderedLabels\<close>.\<close>

definition orderedLabels :: "serverReporter \<Rightarrow> string list" where
  "orderedLabels r =
     fold (\<lambda>labelName acc. acc @ [map_index (reporter_labels r) labelName]) (labels (metrics r)) []"

definition Handled :: "serverReporter \<Rightarrow> world \<Rightarrow> world" where
  "Handled r w =
     (let lvs = orderedLabels r;
          w1 = w\<lparr> counterSeries := CounterVec_Inc lvs (counterSeries w) \<rparr>
      in w1\<lparr> histogramSeries := HistogramVec_Observe lvs (now w1 - startTime r) (histogramSeries w1) \<rparr>)"

text \<open>
  The wrapped handler is opaque: it may take time and change the store as it likes, and
  it either returns a response with an optional error or does not return (it panics),
  in which case the interceptor does not return either.
\<close>

datatype 'a outcome = Returned 'a | Panicked

type_synonym ('ctx, 'req, 'resp) UnaryHandler =
  "'ctx \<Rightarrow> 'req \<Rightarrow> world \<Rightarrow> ('resp \<times> error option) outcome \<times> world"

definition UnaryServerInterceptor ::
  "ServerMetrics \<Rightarrow> 'ctx LabelExtractor \<Rightarrow> 'ctx \<Rightarrow> 'req \<Rightarrow> UnaryServerInfo
     \<Rightarrow> ('ctx, 'req, 'resp) UnaryHandler \<Rightarrow> world \<Rightarrow> ('resp \<times> error option) outcome \<times> world" where
  "UnaryServerInterceptor m labelExtractor ctx req info handler w =
     (let metricLabels = metricLabels m labelExtractor ctx info;
          monitor = newServerReporter m metricLabels w
      in case handler ctx req w of
           (Panicked, w') \<Rightarrow> (Panicked, w')
         | (Returned (resp, err), w') \<Rightarrow>
             (let (st, _) = FromError err;
                  monitor' = monitor\<lparr> reporter_labels :=
                               (reporter_labels monitor)(''grpc_status'' \<mapsto> Code_String (Code_of st)) \<rparr>
              in (Returned (resp, err), Handled monitor' w')))"

section \<open>Runs and concrete calls\<close>

text \<open>
  A history of the registry: reporters finalised one after the other, each at its own
  clock reading.
\<close>

fun Handled_seq :: "(serverReporter \<times> int) list \<Rightarrow> world \<Rightarrow> world" where
  "Handled_seq [] w = w"
| "Handled_seq ((r, t) # rest) w = Handled_seq rest (Handled r (w\<lparr> now := t \<rparr>))"

text \<open>The demo service's handler: it answers \<open>Hello name\<close> and never fails.\<close>

definition SayHello :: "('ctx, string, string) UnaryHandler" where
  "SayHello ctx request w = (Returned (''Hello '' @ request, None), w)"

text \<open>
  Three handlers for the scenarios of the specification: one that takes 10 ms and fails
  with a categorised error, one that fails with an error carrying no status, and one
  that panics after 5 ns.
\<close>

definition NotFound_handler :: "('ctx, string, string) UnaryHandler" where
  "NotFound_handler ctx request w =
     (Returned ([], Some (StatusError NotFound ''no such user'')), w\<lparr> now := now w + 10000000 \<rparr>)"

definition plain_error_handler :: "('ctx, string, string) UnaryHandler" where
  "plain_error_handler ctx request w = (Returned ([], Some (PlainError ''boom'')), w)"

definition panicking_handler :: "('ctx, string, string) UnaryHandler" where
  "panicking_handler ctx request w = (Panicked, w\<lparr> now := now w + 5 \<rparr>)"

text \<open>
  An extractor that declares no name of its own and supplies values for two base names,
  and one that declares \<open>userName\<close> and supplies nothing else.
\<close>

definition BaseNameExtractor :: "'ctx LabelExtractor" where
  "BaseNameExtractor =
     \<lparr> LabelNames = [],
       Labels = (\<lambda>ctx. [''grpc_service'' \<mapsto> ''svc'', ''grpc_status'' \<mapsto> ''mine'']) \<rparr>"

definition JordiExtractor :: "'ctx LabelExtractor" where
  "JordiExtractor =
     \<lparr> LabelNames = [''userName''],
       Labels = (\<lambda>ctx. [''userName'' \<mapsto> ''jordi'']) \<rparr>"

definition greet_info :: UnaryServerInfo where
  "greet_info = \<lparr> FullMethod = ''/greet.Greeter/SayHello'' \<rparr>"

text \<open>The registry of the demo server, built with the custom extractor.\<close>

definition grpcMetrics :: ServerMetrics where
  "grpcMetrics = NewServerMetrics (CustomLabelExtractor :: unit LabelExtractor)"

text \<open>A reporter of that registry for a successful call of the demo method.\<close>

definition jordi_reporter :: serverReporter where
  "jordi_reporter =
     \<lparr> metrics = grpcMetrics,
       reporter_labels = [''grpc_service'' \<mapsto> ''greet.Greeter'', ''grpc_method'' \<mapsto> ''SayHello'',
                          ''userName'' \<mapsto> ''jordi'', ''grpc_status'' \<mapsto> ''OK''],
       startTime = 0 \<rparr>"

text \<open>The registry built with the extractor that names no label of its own.\<close>

definition baseMetrics :: ServerMetrics where
  "baseMetrics = NewServerMetrics (BaseNameExtractor :: unit LabelExtractor)"

text \<open>
  The precedence as the specification words it, for one declared name: the extractor's
  entry, then the value derived from the method identifier, then the sentinel.
\<close>

definition spec_precedence :: "'ctx LabelExtractor \<Rightarrow> 'ctx \<Rightarrow> UnaryServerInfo \<Rightarrow> string \<Rightarrow> string" where
  "spec_precedence labelExtractor ctx info n =
     (case Labels labelExtractor ctx n of
        Some v \<Rightarrow> v
      | None \<Rightarrow>
          if n = ''grpc_service'' then fst (splitMethodName (FullMethod info))
          else if n = ''grpc_method'' then snd (splitMethodName (FullMethod info))
          else ''default'')"

section \<open>Auxiliary facts\<close>

lemma Index_single:
  "Index s [c] = (if c \<in> set s then int (length (takeWhile (\<lambda>x. x \<noteq> c) s)) else - 1)"
  by (induction s) (auto simp: Let_def)

lemma take_length_takeWhile: "take (length (takeWhile P xs)) xs = takeWhile P xs"
  by (induction xs) auto

lemma drop_Suc_length_takeWhile: "drop (Suc (length (takeWhile P xs))) xs = tl (dropWhile P xs)"
  by (induction xs) auto

lemma TrimPrefix_slash:
  "TrimPrefix s ''/'' = (case s of [] \<Rightarrow> [] | c # rest \<Rightarrow> if c = CHR ''/'' then rest else s)"
  by (cases s) (auto simp: TrimPrefix_def)

lemma split_at_Index:
  "splitMethodName s =
     (let t = TrimPrefix s ''/'' in
      if CHR ''/'' \<in> set t
      then (takeWhile (\<lambda>c. c \<noteq> CHR ''/'') t, tl (dropWhile (\<lambda>c. c \<noteq> CHR ''/'') t))
      else (''unknown'', ''unknown''))"
proof -
  define t where "t = TrimPrefix s ''/''"
  show ?thesis
  proof (cases "CHR ''/'' \<in> set t")
    case True
    then have i: "Index t ''/'' = int (length (takeWhile (\<lambda>c. c \<noteq> CHR ''/'') t))"
      by (simp add: Index_single)
    have "nat (Index t ''/'' + 1) = Suc (length (takeWhile (\<lambda>c. c \<noteq> CHR ''/'') t))"
      unfolding i by simp
    with i True show ?thesis
      unfolding splitMethodName_def Let_def t_def [symmetric]
      by (simp add: take_length_takeWhile drop_Suc_length_takeWhile)
  next
    case False
    then have "Index t ''/'' = - 1"
      by (simp add: Index_single)
    with False show ?thesis
      unfolding splitMethodName_def Let_def t_def [symmetric] by simp
  qed
qed

lemma splitMethodName_spec: "splitMethodName s = spec_split s"
  unfolding split_at_Index spec_split_def TrimPrefix_slash ..

lemma fold_default:
  "fold (\<lambda>labelName labels2. case labels2 labelName of None \<Rightarrow> labels2(labelName \<mapsto> d) | Some v \<Rightarrow> labels2) ns l k
   = (case l k of Some v \<Rightarrow> Some v | None \<Rightarrow> if k \<in> set ns then Some d else None)"
  by (induction ns arbitrary: l) (auto split: option.splits)

lemma metricLabels_apply:
  "metricLabels m e ctx info k =
     (case Labels e ctx k of
        Some v \<Rightarrow> Some v
      | None \<Rightarrow>
          if k = ''grpc_method'' then Some (snd (splitMethodName (FullMethod info)))
          else if k = ''grpc_service'' then Some (fst (splitMethodName (FullMethod info)))
          else if k \<in> set (labels m) then Some ''default'' else None)"
proof -
  obtain svc meth where sm: "splitMethodName (FullMethod info) = (svc, meth)"
    by (cases "splitMethodName (FullMethod info)")
  have base: "[''grpc_service'' \<mapsto> svc, ''grpc_method'' \<mapsto> meth] k =
      (if k = ''grpc_method'' then Some meth else if k = ''grpc_service'' then Some svc else None)"
    by simp
  have "metricLabels m e ctx info k =
      (case ([''grpc_service'' \<mapsto> svc, ''grpc_method'' \<mapsto> meth] ++ Labels e ctx) k of
         Some v \<Rightarrow> Some v | None \<Rightarrow> if k \<in> set (labels m) then Some ''default'' else None)"
    unfolding metricLabels_def sm Let_def prod.case by (rule fold_default)
  also have "([''grpc_service'' \<mapsto> svc, ''grpc_method'' \<mapsto> meth] ++ Labels e ctx) k =
      (case Labels e ctx k of Some v \<Rightarrow> Some v
       | None \<Rightarrow> [''grpc_service'' \<mapsto> svc, ''grpc_method'' \<mapsto> meth] k)"
    by (simp only: map_add_def)
  finally show ?thesis
    unfolding base sm by (simp split: option.splits)
qed

lemma orderedLabels_map:
  "orderedLabels r = map (map_index (reporter_labels r)) (labels (metrics r))"
proof -
  have "fold (\<lambda>labelName acc. acc @ [f labelName]) ns acc = acc @ map f ns" for f :: "string \<Rightarrow> string" and ns acc
    by (induction ns arbitrary: acc) auto
  then show ?thesis by (simp add: orderedLabels_def)
qed

lemma map_of_with_series:
  "map_of (with_series z f k vec) k' =
     (if k' = k then Some (f (case map_of vec k of None \<Rightarrow> z | Some v \<Rightarrow> v)) else map_of vec k')"
  by (induction vec) (auto split: option.splits)

lemma keys_with_series: "fst ` set (with_series z f k vec) = insert k (fst ` set vec)"
  by (induction z f k vec rule: with_series.induct) auto

lemma sum_with_series_Suc: "sum_list (map snd (with_series 0 Suc k vec)) = Suc (sum_list (map snd vec))"
  by (induction vec) auto

lemma sum_with_series_snoc:
  "sum_list (map (\<lambda>p. length (snd p)) (with_series [] (\<lambda>obs. obs @ [d]) k vec))
     = Suc (sum_list (map (\<lambda>p. length (snd p)) vec))"
  by (induction vec) auto

lemma counter_value_Inc:
  "counter_value (CounterVec_Inc lvs vec) t = counter_value vec t + (if t = lvs then 1 else 0)"
  by (simp add: counter_value_def CounterVec_Inc_def map_of_with_series split: option.splits)

lemma histogram_obs_Observe:
  "histogram_obs (HistogramVec_Observe lvs d vec) t = histogram_obs vec t @ (if t = lvs then [d] else [])"
  by (simp add: histogram_obs_def HistogramVec_Observe_def map_of_with_series split: option.splits)

lemma interceptor_Returned:
  assumes "handler ctx req w = (Returned (resp, err), w')"
  shows "UnaryServerInterceptor m e ctx req info handler w =
     (Returned (resp, err),
      Handled \<lparr> metrics = m,
                reporter_labels = (metricLabels m e ctx info)
                  (''grpc_status'' \<mapsto> Code_String (Code_of (fst (FromError err)))),
                startTime = now w \<rparr> w')"
  using assms
  by (simp add: UnaryServerInterceptor_def newServerReporter_def Let_def split: prod.splits)

lemma interceptor_Panicked:
  assumes "handler ctx req w = (Panicked, w')"
  shows "UnaryServerInterceptor m e ctx req info handler w = (Panicked, w')"
  using assms by (simp add: UnaryServerInterceptor_def Let_def)

lemma positive_with_series:
  "\<forall>p \<in> set vec. P (snd p) \<Longrightarrow> P (f z) \<Longrightarrow> (\<And>v. P v \<Longrightarrow> P (f v))
     \<Longrightarrow> \<forall>p \<in> set (with_series z f k vec). P (snd p)"
  by (induction z f k vec rule: with_series.induct) auto

lemma Handled_eq:
  "Handled r w =
     w\<lparr> counterSeries := CounterVec_Inc (map (map_index (reporter_labels r)) (labels (metrics r))) (counterSeries w),
        histogramSeries := HistogramVec_Observe (map (map_index (reporter_labels r)) (labels (metrics r)))
                             (now w - startTime r) (histogramSeries w) \<rparr>"
  by (simp add: Handled_def Let_def orderedLabels_map)

lemma interceptor_commit:
  assumes "handler ctx req w = (Returned (resp, err), w')"
  shows "UnaryServerInterceptor m e ctx req info handler w =
     (Returned (resp, err),
      w'\<lparr> counterSeries :=
            CounterVec_Inc
              (map (map_index ((metricLabels m e ctx info)
                      (''grpc_status'' \<mapsto> Code_String (Code_of (fst (FromError err)))))) (labels m))
              (counterSeries w'),
          histogramSeries :=
            HistogramVec_Observe
              (map (map_index ((metricLabels m e ctx info)
                      (''grpc_status'' \<mapsto> Code_String (Code_of (fst (FromError err)))))) (labels m))
              (now w' - now w) (histogramSeries w') \<rparr>)"
  unfolding interceptor_Returned [of handler ctx req w resp err w', OF assms] Handled_eq by simp

lemma total_Inc: "sum_list (map snd (CounterVec_Inc lvs vec)) = Suc (sum_list (map snd vec))"
  by (simp add: CounterVec_Inc_def sum_with_series_Suc)

lemma total_Observe:
  "sum_list (map (\<lambda>p. length (snd p)) (HistogramVec_Observe lvs d vec))
     = Suc (sum_list (map (\<lambda>p. length (snd p)) vec))"
  by (simp add: HistogramVec_Observe_def sum_with_series_snoc)

lemma grpcMetrics_labels:
  "labels grpcMetrics = [''grpc_service'', ''grpc_method'', ''grpc_status'', ''userName'']"
  by (simp add: grpcMetrics_def NewServerMetrics_def CustomLabelExtractor_def Let_def)

lemma greet_info_split:
  "splitMethodName (FullMethod greet_info) = (''greet.Greeter'', ''SayHello'')"
  by (simp add: greet_info_def splitMethodName_def TrimPrefix_def Let_def)

lemma NotFound_run:
  "NotFound_handler () ''Bob'' (new_world 100)
     = (Returned ([], Some (StatusError NotFound ''no such user'')), (new_world 100)\<lparr> now := 10000100 \<rparr>)"
  by (simp add: NotFound_handler_def new_world_def)

lemma NotFound_call:
  "UnaryServerInterceptor grpcMetrics CustomLabelExtractor () ''Bob'' greet_info
       NotFound_handler (new_world 100)
     = (Returned ([], Some (StatusError NotFound ''no such user'')),
        \<lparr> now = 10000100,
          counterSeries = [([''greet.Greeter'', ''SayHello'', ''NotFound'', ''jordi''], 1)],
          histogramSeries = [([''greet.Greeter'', ''SayHello'', ''NotFound'', ''jordi''], [10000000])] \<rparr>)"
proof -
  show ?thesis
    unfolding interceptor_commit [of NotFound_handler "()" "''Bob''" "new_world 100", OF NotFound_run]
      grpcMetrics_labels
    by (simp add: map_index_def metricLabels_apply greet_info_split CustomLabelExtractor_def
        new_world_def CounterVec_Inc_def HistogramVec_Observe_def)
qed

lemma panicking_call:
  "UnaryServerInterceptor grpcMetrics CustomLabelExtractor () ''Bob'' greet_info panicking_handler (new_world 100)
     = (Panicked, \<lparr> now = 105, counterSeries = [], histogramSeries = [] \<rparr>)"
proof -
  have "panicking_handler () ''Bob'' (new_world 100)
      = (Panicked, \<lparr> now = 105, counterSeries = [], histogramSeries = [] \<rparr>)"
    by (simp add: panicking_handler_def new_world_def)
  then show ?thesis
    by (rule interceptor_Panicked)
qed

lemma baseMetrics_labels: "labels baseMetrics = [''grpc_service'', ''grpc_method'', ''grpc_status'']"
  by (simp add: baseMetrics_def NewServerMetrics_def BaseNameExtractor_def Let_def)

lemma plain_error_run:
  "plain_error_handler () ''Bob'' (new_world 100) = (Returned ([], Some (PlainError ''boom'')), new_world 100)"
  by (simp add: plain_error_handler_def)

lemma BaseName_call:
  "UnaryServerInterceptor baseMetrics BaseNameExtractor
       () ''Bob'' greet_info plain_error_handler (new_world 100)
     = (Returned ([], Some (PlainError ''boom'')),
        \<lparr> now = 100,
          counterSeries = [([''svc'', ''SayHello'', ''Unknown''], 1)],
          histogramSeries = [([''svc'', ''SayHello'', ''Unknown''], [0])] \<rparr>)"
proof -
  show ?thesis
    unfolding interceptor_commit [of plain_error_handler "()" "''Bob''" "new_world 100", OF plain_error_run]
      baseMetrics_labels
    by (simp add: map_index_def metricLabels_apply greet_info_split BaseNameExtractor_def
        new_world_def CounterVec_Inc_def HistogramVec_Observe_def)
qed

lemma keys_Handled_seq:
  "fst ` set (counterSeries (Handled_seq rs w)) = fst ` set (counterSeries w) \<union> (\<lambda>(r, t). orderedLabels r) ` set rs"
  "fst ` set (histogramSeries (Handled_seq rs w)) = fst ` set (histogramSeries w) \<union> (\<lambda>(r, t). orderedLabels r) ` set rs"
  by (induction rs w rule: Handled_seq.induct)
    (auto simp: Handled_eq orderedLabels_map CounterVec_Inc_def HistogramVec_Observe_def keys_with_series)

lemma positive_Inc:
  assumes "\<forall>p \<in> set vec. 0 < snd p"
  shows "\<forall>p \<in> set (CounterVec_Inc lvs vec). 0 < snd p"
  unfolding CounterVec_Inc_def using assms by (rule positive_with_series) simp_all

lemma nonempty_Observe:
  assumes "\<forall>p \<in> set vec. snd p \<noteq> []"
  shows "\<forall>p \<in> set (HistogramVec_Observe lvs d vec). snd p \<noteq> []"
  unfolding HistogramVec_Observe_def using assms by (rule positive_with_series) simp_all

lemma positive_Handled_seq:
  "\<forall>p \<in> set (counterSeries w). 0 < snd p \<Longrightarrow> \<forall>p \<in> set (counterSeries (Handled_seq rs w)). 0 < snd p"
proof (induction rs w rule: Handled_seq.induct)
  case (1 w)
  then show ?case by simp
next
  case (2 r t rest w)
  have "\<forall>p \<in> set (counterSeries (Handled r (w\<lparr>now := t\<rparr>))). 0 < snd p"
    unfolding Handled_eq using positive_Inc [OF "2.prems"] by simp
  then show ?case using "2.IH" by simp
qed

lemma nonempty_Handled_seq:
  "\<forall>p \<in> set (histogramSeries w). snd p \<noteq> [] \<Longrightarrow> \<forall>p \<in> set (histogramSeries (Handled_seq rs w)). snd p \<noteq> []"
proof (induction rs w rule: Handled_seq.induct)
  case (1 w)
  then show ?case by simp
next
  case (2 r t rest w)
  have "\<forall>p \<in> set (histogramSeries (Handled r (w\<lparr>now := t\<rparr>))). snd p \<noteq> []"
    unfolding Handled_eq using nonempty_Observe [OF "2.prems"] by simp
  then show ?case using "2.IH" by simp
qed

lemma Collect_labels:
  "metric_labels ` set (Collect_metrics m w) = fst ` set (counterSeries w) \<union> fst ` set (histogramSeries w)"
  by (force simp: Collect_metrics_def image_Un image_image split_def)

lemma SayHello_run: "SayHello () ''Bob'' (new_world 100) = (Returned (''Hello Bob'', None), new_world 100)"
  by (simp add: SayHello_def)

lemma SayHello_base_call:
  "UnaryServerInterceptor baseMetrics BaseNameExtractor () ''Bob'' greet_info SayHello (new_world 100)
     = (Returned (''Hello Bob'', None),
        \<lparr> now = 100,
          counterSeries = [([''svc'', ''SayHello'', ''OK''], 1)],
          histogramSeries = [([''svc'', ''SayHello'', ''OK''], [0])] \<rparr>)"
  unfolding interceptor_commit [of SayHello "()" "''Bob''" "new_world 100", OF SayHello_run]
    baseMetrics_labels
  by (simp add: map_index_def metricLabels_apply greet_info_split BaseNameExtractor_def
      new_world_def CounterVec_Inc_def HistogramVec_Observe_def)

lemma resolved_value:
  assumes "n \<in> set (labels m)"
  shows "map_index ((metricLabels m e ctx info)(''grpc_status'' \<mapsto> s)) n
     = (if n = ''grpc_status'' then s else spec_precedence e ctx info n)"
  using assms by (simp add: map_index_def metricLabels_apply spec_precedence_def split: option.splits)

lemma metricLabels_declared_only:
  assumes "\<forall>n \<in> set (labels m). Labels e' ctx n = Labels e ctx n"
  shows "map (map_index ((metricLabels m e' ctx info)(''grpc_status'' \<mapsto> s))) (labels m)
     = map (map_index ((metricLabels m e ctx info)(''grpc_status'' \<mapsto> s))) (labels m)"
proof (rule map_cong [OF refl])
  fix n assume "n \<in> set (labels m)"
  with assms have "Labels e' ctx n = Labels e ctx n" by blast
  then show "map_index ((metricLabels m e' ctx info)(''grpc_status'' \<mapsto> s)) n
     = map_index ((metricLabels m e ctx info)(''grpc_status'' \<mapsto> s)) n"
    by (simp add: map_index_def metricLabels_apply)
qed

lemma SayHello_grpc_call:
  "UnaryServerInterceptor grpcMetrics CustomLabelExtractor () ''Bob'' greet_info SayHello (new_world 100)
     = (Returned (''Hello Bob'', None),
        \<lparr> now = 100,
          counterSeries = [([''greet.Greeter'', ''SayHello'', ''OK'', ''jordi''], 1)],
          histogramSeries = [([''greet.Greeter'', ''SayHello'', ''OK'', ''jordi''], [0])] \<rparr>)"
  unfolding interceptor_commit [of SayHello "()" "''Bob''" "new_world 100", OF SayHello_run]
    grpcMetrics_labels
  by (simp add: map_index_def metricLabels_apply greet_info_split CustomLabelExtractor_def
      new_world_def CounterVec_Inc_def HistogramVec_Observe_def)

section \<open>Method identifiers\<close>

text \<open>
  Claim C4. \<^verbatim>\<open>splitMethodName\<close> strips one leading slash and cuts at the first slash
  that remains: the part before it is the service, the part after it the method, and
  both are \<open>unknown\<close> when no slash remains. \<^verbatim>\<open>/greet.Greeter/SayHello\<close> resolves to
  \<open>(greet.Greeter, SayHello)\<close>, and an identifier without any slash resolves to
  \<open>(unknown, unknown)\<close>.
\<close>

theorem splitMethodName_resolves:
  "splitMethodName s = spec_split s
   \<and> splitMethodName ''/greet.Greeter/SayHello'' = (''greet.Greeter'', ''SayHello'')
   \<and> (CHR ''/'' \<notin> set s \<longrightarrow> splitMethodName s = (''unknown'', ''unknown''))"
proof (intro conjI impI)
  show "splitMethodName s = spec_split s"
    by (rule splitMethodName_spec)
  show "splitMethodName ''/greet.Greeter/SayHello'' = (''greet.Greeter'', ''SayHello'')"
    by (simp add: splitMethodName_def TrimPrefix_def Let_def)
  assume no: "CHR ''/'' \<notin> set s"
  have "TrimPrefix s ''/'' = s"
    using no by (cases s) (auto simp: TrimPrefix_def)
  with no show "splitMethodName s = (''unknown'', ''unknown'')"
    by (simp add: split_at_Index)
qed

theorem splitMethodName_resolves_witness:
  "CHR ''/'' \<notin> set ''SayHello''
   \<and> splitMethodName ''SayHello'' = (''unknown'', ''unknown'')
   \<and> spec_split ''SayHello'' = (''unknown'', ''unknown'')"
  using splitMethodName_resolves [of "''SayHello''"] by (simp add: spec_split_def)

section \<open>Resolved labels\<close>

text \<open>
  Claim C5. The label map resolved before the handler runs has a value for every name of
  the registry's label set; a declared name that the extractor's mapping omits and that
  is neither the service nor the method name gets the sentinel \<open>default\<close>.
\<close>

theorem metricLabels_covers_declared:
  assumes "n \<in> set (labels m)"
  shows "metricLabels m labelExtractor ctx info n \<noteq> None
    \<and> (Labels labelExtractor ctx n = None \<and> n \<noteq> ''grpc_service'' \<and> n \<noteq> ''grpc_method''
         \<longrightarrow> metricLabels m labelExtractor ctx info n = Some ''default'')"
  using assms by (simp add: metricLabels_apply split: option.splits)

theorem metricLabels_covers_declared_witness:
  "''userName'' \<in> set (labels grpcMetrics)
   \<and> Labels DefaultLabelExtractor () ''userName'' = None
   \<and> metricLabels grpcMetrics DefaultLabelExtractor () greet_info ''userName''
       = Some ''default''"
proof -
  have d: "''userName'' \<in> set (labels grpcMetrics)"
    by (simp add: grpcMetrics_labels)
  have o: "Labels DefaultLabelExtractor () ''userName'' = None"
    by (simp add: DefaultLabelExtractor_def)
  from metricLabels_covers_declared [OF d, of DefaultLabelExtractor "()" greet_info] o d
  show ?thesis by blast
qed

section \<open>The declared label set\<close>

text \<open>
  Claim C6. Constructing the registry with an extractor declares the three base names
  followed by the extractor's names, in that order, for both metrics; two constructions
  with the same declared extractor names give the same label set.
\<close>

theorem NewServerMetrics_label_set:
  "labels (NewServerMetrics labelExtractor)
     = [''grpc_service'', ''grpc_method'', ''grpc_status''] @ LabelNames labelExtractor
   \<and> variableLabels (serverHandledCounter (NewServerMetrics labelExtractor))
     = labels (NewServerMetrics labelExtractor)
   \<and> variableLabels (serverHandledHistogram (NewServerMetrics labelExtractor))
     = labels (NewServerMetrics labelExtractor)
   \<and> (LabelNames labelExtractor' = LabelNames labelExtractor
        \<longrightarrow> labels (NewServerMetrics labelExtractor') = labels (NewServerMetrics labelExtractor))"
  by (simp add: NewServerMetrics_def Let_def)

theorem NewServerMetrics_label_set_witness:
  "LabelNames (CustomLabelExtractor :: unit LabelExtractor) = LabelNames (CustomLabelExtractor :: unit LabelExtractor)
   \<and> labels (NewServerMetrics (CustomLabelExtractor :: unit LabelExtractor))
       = [''grpc_service'', ''grpc_method'', ''grpc_status'', ''userName'']"
  using NewServerMetrics_label_set [of "CustomLabelExtractor :: unit LabelExtractor" "CustomLabelExtractor :: unit LabelExtractor"]
  by (simp add: CustomLabelExtractor_def)

section \<open>Order of the committed values\<close>

text \<open>
  Claim C7. \<^verbatim>\<open>Handled\<close> builds the tuple of label values by walking the registry's
  declared names in their declared order and reading the resolved value of each; the
  same tuple goes to the counter and to the histogram.
\<close>

theorem Handled_values_in_declared_order:
  "orderedLabels r = map (map_index (reporter_labels r)) (labels (metrics r))
   \<and> length (orderedLabels r) = length (labels (metrics r))
   \<and> Handled r w =
       w\<lparr> counterSeries := CounterVec_Inc (orderedLabels r) (counterSeries w),
          histogramSeries := HistogramVec_Observe (orderedLabels r) (now w - startTime r) (histogramSeries w) \<rparr>"
  by (simp add: Handled_eq orderedLabels_map)

theorem Handled_values_in_declared_order_witness:
  "orderedLabels \<lparr> metrics = grpcMetrics,
                    reporter_labels = [''userName'' \<mapsto> ''jordi'', ''grpc_status'' \<mapsto> ''OK'',
                                       ''grpc_method'' \<mapsto> ''SayHello'', ''grpc_service'' \<mapsto> ''greet.Greeter''],
                    startTime = 0 \<rparr>
     = [''greet.Greeter'', ''SayHello'', ''OK'', ''jordi'']"
  using Handled_values_in_declared_order
    [of "\<lparr> metrics = grpcMetrics,
           reporter_labels = [''userName'' \<mapsto> ''jordi'', ''grpc_status'' \<mapsto> ''OK'',
                              ''grpc_method'' \<mapsto> ''SayHello'', ''grpc_service'' \<mapsto> ''greet.Greeter''],
           startTime = 0 \<rparr>" "new_world 0"]
  by (simp add: grpcMetrics_labels map_index_def)

section \<open>One observation per call\<close>

text \<open>
  Claim C1. When the wrapped handler returns, with or without an error, the interceptor
  returns with the store the handler left plus exactly one observation: one increment
  of the counter series of one tuple and one duration added to the histogram series of
  the same tuple, every other series unchanged, so that the total of all counters and
  the number of all histogram observations each grow by one. The observation is applied
  to the store as the handler left it, so it is made after the handler completes; a
  handler that does not return leaves no observation.
\<close>

theorem interceptor_observes_once:
  assumes "handler ctx req w = (Returned (resp, err), w')"
  shows "\<exists>lvs w''.
      UnaryServerInterceptor m e ctx req info handler w = (Returned (resp, err), w'')
    \<and> w'' = w'\<lparr> counterSeries := CounterVec_Inc lvs (counterSeries w'),
                 histogramSeries := HistogramVec_Observe lvs (now w' - now w) (histogramSeries w') \<rparr>
    \<and> (\<forall>t. counter_value (counterSeries w'') t = counter_value (counterSeries w') t + (if t = lvs then 1 else 0))
    \<and> (\<forall>t. histogram_obs (histogramSeries w'') t
             = histogram_obs (histogramSeries w') t @ (if t = lvs then [now w' - now w] else []))
    \<and> sum_list (map snd (counterSeries w'')) = Suc (sum_list (map snd (counterSeries w')))
    \<and> sum_list (map (\<lambda>p. length (snd p)) (histogramSeries w''))
        = Suc (sum_list (map (\<lambda>p. length (snd p)) (histogramSeries w')))"
proof -
  define lvs where "lvs = map (map_index ((metricLabels m e ctx info)
      (''grpc_status'' \<mapsto> Code_String (Code_of (fst (FromError err)))))) (labels m)"
  define w'' where "w'' = w'\<lparr> counterSeries := CounterVec_Inc lvs (counterSeries w'),
      histogramSeries := HistogramVec_Observe lvs (now w' - now w) (histogramSeries w') \<rparr>"
  have run: "UnaryServerInterceptor m e ctx req info handler w = (Returned (resp, err), w'')"
    unfolding w''_def lvs_def by (rule interceptor_commit [of handler ctx req w resp err w', OF assms])
  have c: "counterSeries w'' = CounterVec_Inc lvs (counterSeries w')"
    and h: "histogramSeries w'' = HistogramVec_Observe lvs (now w' - now w) (histogramSeries w')"
    by (simp_all add: w''_def)
  have "\<forall>t. counter_value (counterSeries w'') t = counter_value (counterSeries w') t + (if t = lvs then 1 else 0)"
    unfolding c by (simp add: counter_value_Inc)
  moreover have "\<forall>t. histogram_obs (histogramSeries w'') t
             = histogram_obs (histogramSeries w') t @ (if t = lvs then [now w' - now w] else [])"
    unfolding h by (simp add: histogram_obs_Observe)
  moreover have "sum_list (map snd (counterSeries w'')) = Suc (sum_list (map snd (counterSeries w')))"
    unfolding c by (rule total_Inc)
  moreover have "sum_list (map (\<lambda>p. length (snd p)) (histogramSeries w''))
        = Suc (sum_list (map (\<lambda>p. length (snd p)) (histogramSeries w')))"
    unfolding h by (rule total_Observe)
  ultimately show ?thesis
    using run w''_def by blast
qed

theorem interceptor_observes_once_witness:
  "NotFound_handler () ''Bob'' (new_world 100)
     = (Returned ([], Some (StatusError NotFound ''no such user'')), (new_world 100)\<lparr> now := 10000100 \<rparr>)
   \<and> UnaryServerInterceptor grpcMetrics CustomLabelExtractor () ''Bob'' greet_info
       NotFound_handler (new_world 100)
     = (Returned ([], Some (StatusError NotFound ''no such user'')),
        \<lparr> now = 10000100,
          counterSeries = [([''greet.Greeter'', ''SayHello'', ''NotFound'', ''jordi''], 1)],
          histogramSeries = [([''greet.Greeter'', ''SayHello'', ''NotFound'', ''jordi''], [10000000])] \<rparr>)
   \<and> UnaryServerInterceptor grpcMetrics CustomLabelExtractor () ''Bob'' greet_info
       panicking_handler (new_world 100)
     = (Panicked, \<lparr> now = 105, counterSeries = [], histogramSeries = [] \<rparr>)"
  using interceptor_observes_once [of NotFound_handler "()" "''Bob''" "new_world 100", OF NotFound_run,
      of grpcMetrics CustomLabelExtractor greet_info]
    NotFound_run NotFound_call panicking_call
  by blast

section \<open>The handler's result is passed through\<close>

text \<open>
  Claim C2. The interceptor hands the original context and request to the handler, in
  the store as it was at entry, and returns the handler's response and error as they
  are; the handler runs once, and the only effect added to the store it leaves is the
  reporter's \<^verbatim>\<open>Handled\<close>.
\<close>

theorem interceptor_returns_handler_result:
  "fst (UnaryServerInterceptor m e ctx req info handler w) = fst (handler ctx req w)
   \<and> (\<exists>r. snd (UnaryServerInterceptor m e ctx req info handler w)
          = (case fst (handler ctx req w) of
               Panicked \<Rightarrow> snd (handler ctx req w)
             | Returned x \<Rightarrow> Handled r (snd (handler ctx req w))))"
proof (cases "handler ctx req w")
  case (Pair out w')
  show ?thesis
  proof (cases out)
    case Panicked
    with Pair show ?thesis
      by (simp add: interceptor_Panicked)
  next
    case (Returned x)
    obtain resp err where "x = (resp, err)" by (cases x)
    with Pair Returned have h: "handler ctx req w = (Returned (resp, err), w')"
      by simp
    show ?thesis
      unfolding interceptor_Returned [of handler ctx req w resp err w', OF h] h by auto
  qed
qed

theorem interceptor_returns_handler_result_witness:
  "fst (UnaryServerInterceptor grpcMetrics CustomLabelExtractor () ''Bob'' greet_info
          NotFound_handler (new_world 100))
     = Returned ([], Some (StatusError NotFound ''no such user''))"
  using interceptor_returns_handler_result
      [of grpcMetrics CustomLabelExtractor "()" "''Bob''" greet_info
          NotFound_handler "new_world 100"]
  by (simp add: NotFound_run)

section \<open>The status label\<close>

text \<open>
  Claim C3. After the handler returns, its outcome is classified into a status code (no
  error gives \<open>OK\<close>, an error carrying a status gives that status's code, any other
  error gives \<open>Unknown\<close>), and the name of that code is the value committed at every
  position of the label set that holds \<open>grpc_status\<close> (the third position of a
  constructed registry), whatever the label map held for it before the handler ran.
\<close>

theorem status_label_from_outcome:
  fixes e :: "'ctx LabelExtractor"
  assumes "handler ctx req w = (Returned (resp, err), w')"
  shows "\<exists>lvs.
      UnaryServerInterceptor m e ctx req info handler w
        = (Returned (resp, err),
           w'\<lparr> counterSeries := CounterVec_Inc lvs (counterSeries w'),
               histogramSeries := HistogramVec_Observe lvs (now w' - now w) (histogramSeries w') \<rparr>)
    \<and> length lvs = length (labels m)
    \<and> (\<forall>i. i < length (labels m) \<and> labels m ! i = ''grpc_status''
           \<longrightarrow> lvs ! i = Code_String (Code_of (fst (FromError err))))
    \<and> (\<forall>e0 :: 'ctx LabelExtractor. m = NewServerMetrics e0
           \<longrightarrow> lvs ! 2 = Code_String (Code_of (fst (FromError err))))
    \<and> Code_of (fst (FromError None)) = OK
    \<and> (\<forall>c msg. Code_of (fst (FromError (Some (StatusError c msg)))) = c)
    \<and> (\<forall>msg. Code_of (fst (FromError (Some (PlainError msg)))) = Unknown)"
proof -
  define lvs where "lvs = map (map_index ((metricLabels m e ctx info)
      (''grpc_status'' \<mapsto> Code_String (Code_of (fst (FromError err)))))) (labels m)"
  have run: "UnaryServerInterceptor m e ctx req info handler w
        = (Returned (resp, err),
           w'\<lparr> counterSeries := CounterVec_Inc lvs (counterSeries w'),
               histogramSeries := HistogramVec_Observe lvs (now w' - now w) (histogramSeries w') \<rparr>)"
    unfolding lvs_def by (rule interceptor_commit [of handler ctx req w resp err w', OF assms])
  have len: "length lvs = length (labels m)"
    by (simp add: lvs_def)
  have pos: "\<forall>i. i < length (labels m) \<and> labels m ! i = ''grpc_status''
           \<longrightarrow> lvs ! i = Code_String (Code_of (fst (FromError err)))"
    unfolding lvs_def by (simp add: map_index_def)
  have base: "\<forall>e0 :: 'ctx LabelExtractor. m = NewServerMetrics e0
           \<longrightarrow> lvs ! 2 = Code_String (Code_of (fst (FromError err)))"
    unfolding lvs_def by (simp add: NewServerMetrics_def Let_def map_index_def)
  have cls: "Code_of (fst (FromError None)) = OK"
    "\<forall>c msg. Code_of (fst (FromError (Some (StatusError c msg)))) = c"
    "\<forall>msg. Code_of (fst (FromError (Some (PlainError msg)))) = Unknown"
    by simp_all
  from run len pos base cls show ?thesis by blast
qed

theorem status_label_from_outcome_witness:
  "plain_error_handler () ''Bob'' (new_world 100) = (Returned ([], Some (PlainError ''boom'')), new_world 100)
   \<and> Labels BaseNameExtractor () ''grpc_status'' = Some ''mine''
   \<and> UnaryServerInterceptor baseMetrics BaseNameExtractor
       () ''Bob'' greet_info plain_error_handler (new_world 100)
     = (Returned ([], Some (PlainError ''boom'')),
        \<lparr> now = 100,
          counterSeries = [([''svc'', ''SayHello'', ''Unknown''], 1)],
          histogramSeries = [([''svc'', ''SayHello'', ''Unknown''], [0])] \<rparr>)"
proof -
  have "Labels BaseNameExtractor () ''grpc_status'' = Some ''mine''"
    by (simp add: BaseNameExtractor_def)
  with status_label_from_outcome [of plain_error_handler "()" "''Bob''" "new_world 100", OF plain_error_run,
      of baseMetrics BaseNameExtractor greet_info]
    plain_error_run BaseName_call
  show ?thesis by blast
qed

section \<open>Series exist only for observed tuples\<close>

text \<open>
  Claim C8. Starting from a freshly constructed registry and finalising any sequence of
  reporters, a tuple that none of them committed has no series in what
  \<^verbatim>\<open>Collect\<close> enumerates: the collected tuples are exactly the committed ones, every
  collected series holds at least one observation, and a fresh registry collects nothing.
\<close>

theorem Collect_omits_unobserved:
  assumes "tuple \<notin> set (map (\<lambda>(r, t). orderedLabels r) rs)"
  shows "tuple \<notin> set (map metric_labels (Collect_metrics m (Handled_seq rs (new_world t0))))
    \<and> set (map metric_labels (Collect_metrics m (Handled_seq rs (new_world t0))))
        = set (map (\<lambda>(r, t). orderedLabels r) rs)
    \<and> list_all (\<lambda>x. 0 < metric_count x) (Collect_metrics m (Handled_seq rs (new_world t0)))
    \<and> Collect_metrics m (new_world t0) = []"
proof -
  let ?w = "Handled_seq rs (new_world t0)"
  have keys: "set (map metric_labels (Collect_metrics m ?w)) = set (map (\<lambda>(r, t). orderedLabels r) rs)"
    by (simp add: Collect_labels keys_Handled_seq new_world_def)
  have "\<forall>p \<in> set (counterSeries ?w). 0 < snd p"
    by (rule positive_Handled_seq) (simp add: new_world_def)
  moreover have "\<forall>p \<in> set (histogramSeries ?w). snd p \<noteq> []"
    by (rule nonempty_Handled_seq) (simp add: new_world_def)
  ultimately have pos: "list_all (\<lambda>x. 0 < metric_count x) (Collect_metrics m ?w)"
    by (auto simp: Collect_metrics_def list_all_iff)
  have "Collect_metrics m (new_world t0) = []"
    by (simp add: Collect_metrics_def new_world_def)
  with assms keys pos show ?thesis by simp
qed

theorem Collect_omits_unobserved_witness:
  "[''greet.Greeter'', ''SayHello'', ''NotFound'', ''jordi'']
     \<notin> set (map (\<lambda>(r, t). orderedLabels r) [(jordi_reporter, 7), (jordi_reporter, 9)])
   \<and> Collect_metrics grpcMetrics (Handled_seq [(jordi_reporter, 7), (jordi_reporter, 9)] (new_world 0))
       = [CounterMetric [''greet.Greeter'', ''SayHello'', ''OK'', ''jordi''] 2,
          HistogramMetric [''greet.Greeter'', ''SayHello'', ''OK'', ''jordi''] [7, 9]]"
proof -
  have o: "orderedLabels jordi_reporter = [''greet.Greeter'', ''SayHello'', ''OK'', ''jordi'']"
    by (simp add: orderedLabels_map jordi_reporter_def grpcMetrics_labels map_index_def)
  have h: "[''greet.Greeter'', ''SayHello'', ''NotFound'', ''jordi'']
     \<notin> set (map (\<lambda>(r, t). orderedLabels r) [(jordi_reporter, 7), (jordi_reporter, 9)])"
    by (simp add: o)
  have s: "startTime jordi_reporter = 0"
    by (simp add: jordi_reporter_def)
  have ev: "Collect_metrics grpcMetrics (Handled_seq [(jordi_reporter, 7), (jordi_reporter, 9)] (new_world 0))
       = [CounterMetric [''greet.Greeter'', ''SayHello'', ''OK'', ''jordi''] 2,
          HistogramMetric [''greet.Greeter'', ''SayHello'', ''OK'', ''jordi''] [7, 9]]"
    by (simp add: Handled_def Let_def o s new_world_def Collect_metrics_def
        CounterVec_Inc_def HistogramVec_Observe_def)
  from Collect_omits_unobserved [OF h, of grpcMetrics 0] h ev show ?thesis
    by blast
qed

section \<open>Precedence of label values\<close>

text \<open>
  Claim C10, as stated: the value committed for every declared name is the extractor's
  entry when there is one. It fails for \<open>grpc_status\<close>: the extractor below supplies
  \<open>mine\<close> for it, and the committed value is the status code \<open>OK\<close>.
\<close>

theorem extractor_status_entry_overridden:
  "Labels BaseNameExtractor () ''grpc_status'' = Some ''mine''
   \<and> map (spec_precedence BaseNameExtractor () greet_info) (labels baseMetrics) = [''svc'', ''SayHello'', ''mine'']
   \<and> counterSeries (snd (UnaryServerInterceptor baseMetrics BaseNameExtractor () ''Bob'' greet_info
                            SayHello (new_world 100)))
       = [([''svc'', ''SayHello'', ''OK''], 1)]
   \<and> counterSeries (snd (UnaryServerInterceptor baseMetrics BaseNameExtractor () ''Bob'' greet_info
                            SayHello (new_world 100)))
       \<noteq> CounterVec_Inc (map (spec_precedence BaseNameExtractor () greet_info) (labels baseMetrics))
            (counterSeries (new_world 100))"
  unfolding SayHello_base_call baseMetrics_labels
  by (simp add: spec_precedence_def BaseNameExtractor_def greet_info_split CounterVec_Inc_def new_world_def)

text \<open>
  Claim C10, amended. For a call whose handler returns, the value committed for
  \<open>grpc_status\<close> is the status code of the outcome, and the value committed for every
  other declared name follows the precedence: the extractor's entry, then the value
  derived from the method identifier (for the service and method names), then
  \<open>default\<close>. Entries of the extractor's mapping under undeclared names are never read:
  two mappings that agree on the declared names give the same result and the same store.
\<close>

theorem committed_values_precedence:
  assumes "handler ctx req w = (Returned (resp, err), w')"
  shows "UnaryServerInterceptor m e ctx req info handler w
      = (Returned (resp, err),
         w'\<lparr> counterSeries :=
               CounterVec_Inc
                 (map (\<lambda>n. if n = ''grpc_status'' then Code_String (Code_of (fst (FromError err)))
                            else spec_precedence e ctx info n) (labels m))
                 (counterSeries w'),
             histogramSeries :=
               HistogramVec_Observe
                 (map (\<lambda>n. if n = ''grpc_status'' then Code_String (Code_of (fst (FromError err)))
                            else spec_precedence e ctx info n) (labels m))
                 (now w' - now w) (histogramSeries w') \<rparr>)
    \<and> ((\<forall>n \<in> set (labels m). Labels e' ctx n = Labels e ctx n)
         \<longrightarrow> UnaryServerInterceptor m e' ctx req info handler w
             = UnaryServerInterceptor m e ctx req info handler w)"
proof (intro conjI impI)
  have "map (map_index ((metricLabels m e ctx info)
            (''grpc_status'' \<mapsto> Code_String (Code_of (fst (FromError err)))))) (labels m)
      = map (\<lambda>n. if n = ''grpc_status'' then Code_String (Code_of (fst (FromError err)))
                 else spec_precedence e ctx info n) (labels m)"
    by (rule map_cong [OF refl]) (rule resolved_value)
  then show "UnaryServerInterceptor m e ctx req info handler w
      = (Returned (resp, err),
         w'\<lparr> counterSeries :=
               CounterVec_Inc
                 (map (\<lambda>n. if n = ''grpc_status'' then Code_String (Code_of (fst (FromError err)))
                            else spec_precedence e ctx info n) (labels m))
                 (counterSeries w'),
             histogramSeries :=
               HistogramVec_Observe
                 (map (\<lambda>n. if n = ''grpc_status'' then Code_String (Code_of (fst (FromError err)))
                            else spec_precedence e ctx info n) (labels m))
                 (now w' - now w) (histogramSeries w') \<rparr>)"
    by (simp only: interceptor_commit [of handler ctx req w resp err w', OF assms])
next
  assume same: "\<forall>n \<in> set (labels m). Labels e' ctx n = Labels e ctx n"
  show "UnaryServerInterceptor m e' ctx req info handler w
             = UnaryServerInterceptor m e ctx req info handler w"
    by (simp only: interceptor_commit [of handler ctx req w resp err w', OF assms]
        metricLabels_declared_only [OF same])
qed

theorem committed_values_precedence_witness:
  "SayHello () ''Bob'' (new_world 100) = (Returned (''Hello Bob'', None), new_world 100)
   \<and> Labels CustomLabelExtractor () ''appVersion'' = Some ''v0.5''
   \<and> Labels JordiExtractor () ''appVersion'' = None
   \<and> UnaryServerInterceptor grpcMetrics JordiExtractor () ''Bob'' greet_info SayHello (new_world 100)
       = UnaryServerInterceptor grpcMetrics CustomLabelExtractor () ''Bob'' greet_info SayHello (new_world 100)
   \<and> UnaryServerInterceptor grpcMetrics CustomLabelExtractor () ''Bob'' greet_info SayHello (new_world 100)
       = (Returned (''Hello Bob'', None),
          \<lparr> now = 100,
            counterSeries = [([''greet.Greeter'', ''SayHello'', ''OK'', ''jordi''], 1)],
            histogramSeries = [([''greet.Greeter'', ''SayHello'', ''OK'', ''jordi''], [0])] \<rparr>)"
proof -
  have same: "\<forall>n \<in> set (labels grpcMetrics). Labels JordiExtractor () n = Labels CustomLabelExtractor () n"
    by (simp add: grpcMetrics_labels JordiExtractor_def CustomLabelExtractor_def)
  have extra: "Labels CustomLabelExtractor () ''appVersion'' = Some ''v0.5''"
    "Labels JordiExtractor () ''appVersion'' = None"
    by (simp_all add: JordiExtractor_def CustomLabelExtractor_def)
  from committed_values_precedence [of SayHello "()" "''Bob''" "new_world 100", OF SayHello_run,
      of grpcMetrics CustomLabelExtractor greet_info JordiExtractor] same
  have "UnaryServerInterceptor grpcMetrics JordiExtractor () ''Bob'' greet_info SayHello (new_world 100)
       = UnaryServerInterceptor grpcMetrics CustomLabelExtractor () ''Bob'' greet_info SayHello (new_world 100)"
    by blast
  with SayHello_run extra SayHello_grpc_call show ?thesis
    by blast
qed

end
